theory Spec2Isabelle
  imports Main "HOL-Library.Sublist" "HOL-Library.AList"
begin

section \<open>Strings and character classes\<close>

text \<open>
  A JavaScript string is a sequence of UTF-16 code units. The model keeps the code units
  below 256, so a string is a \<open>char list\<close> and \<open>length\<close> is the \<open>.length\<close> of the
  source. The en dash and em dash of the separator class of \<open>parseLabel\<close> lie outside this
  alphabet: on it the class \<open>[:\<dots>-]\<close> is the colon and the hyphen.
\<close>

definition isUpper :: "char \<Rightarrow> bool" where
  \<comment> \<open>the class \<open>[A-Z]\<close>\<close>
  "isUpper c = (c \<in> set ''ABCDEFGHIJKLMNOPQRSTUVWXYZ'')"

definition isLower :: "char \<Rightarrow> bool" where
  \<comment> \<open>the class \<open>[a-z]\<close>\<close>
  "isLower c = (c \<in> set ''abcdefghijklmnopqrstuvwxyz'')"

definition isLineTerminator :: "char \<Rightarrow> bool" where
  \<comment> \<open>what \<open>.\<close> refuses: line feed and carriage return\<close>
  "isLineTerminator c = (c = CHR 0x0A \<or> c = CHR 0x0D)"

definition isSpace :: "char \<Rightarrow> bool" where
  \<comment> \<open>the class \<open>\s\<close>, also what \<open>trim\<close> strips: tab, LF, VT, FF, CR, space, no-break space\<close>
  "isSpace c = (c \<in> set [CHR 0x09, CHR 0x0A, CHR 0x0B, CHR 0x0C, CHR 0x0D, CHR 0x20, CHR 0xA0])"

definition isSeparator :: "char \<Rightarrow> bool" where
  \<comment> \<open>the class \<open>[:\<dots>-]\<close> on 8-bit code units\<close>
  "isSeparator c = (c = CHR '':'' \<or> c = CHR ''-'')"

definition trim :: "string \<Rightarrow> string" where
  "trim s = rev (dropWhile isSpace (rev (dropWhile isSpace s)))"

definition substring0 :: "nat \<Rightarrow> string \<Rightarrow> string" where
  \<comment> \<open>\<open>s.substring(0, n)\<close>\<close>
  "substring0 n s = take n s"

section \<open>Label Segmenter: \<open>parseLabel\<close>\<close>

record parsed_label =
  title :: string
  description :: string

definition sentenceStarters :: "string list" where
  "sentenceStarters =
     [''The'', ''This'', ''You'', ''When'', ''If'', ''A '', ''An '', ''It '', ''Select'',
      ''In '', ''On '', ''Use'', ''Click'', ''Choosing'', ''Enabling'', ''Disabling'',
      ''What'', ''Where'', ''How'', ''Why'', ''Which'', ''MFA '', ''Note:'', ''Tip:'',
      ''Generally'', ''Additional'']"

definition startsWithStarter :: "string \<Rightarrow> bool" where
  \<comment> \<open>the alternation \<open>(?:The|This|\<dots>)\<close> followed by \<open>[^]*\<close>, which takes any rest\<close>
  "startsWithStarter s = list_ex (\<lambda>t. prefix t s) sentenceStarters"

text \<open>
  \<open>/^(.+?)((?:The|This|\<dots>)[^]*)/\<close>: the lazy \<open>.+?\<close> takes one character that is not a
  line terminator, then one more each time the rest does not begin with a starter.
  The first argument is what group 1 holds so far.
\<close>

fun sentenceStartFrom :: "string \<Rightarrow> string \<Rightarrow> (string \<times> string) option" where
  "sentenceStartFrom pre [] = None"
| "sentenceStartFrom pre (c # cs) =
     (if isLineTerminator c then None
      else if startsWithStarter cs then Some (pre @ [c], cs)
      else sentenceStartFrom (pre @ [c]) cs)"

definition sentenceStartMatch :: "string \<Rightarrow> (string \<times> string) option" where
  "sentenceStartMatch label = sentenceStartFrom [] label"

text \<open>
  \<open>/^(.+?)([A-Z][a-z].*)$/\<close>: as above, the rest having to begin with an uppercase
  letter and a lowercase letter and to hold no line terminator up to its end.
\<close>

fun reparseFrom :: "string \<Rightarrow> string \<Rightarrow> (string \<times> string) option" where
  "reparseFrom pre [] = None"
| "reparseFrom pre (c # cs) =
     (if isLineTerminator c then None
      else (case cs of
              u # l # rest \<Rightarrow>
                if isUpper u \<and> isLower l \<and> list_all (\<lambda>x. \<not> isLineTerminator x) rest
                then Some (pre @ [c], cs)
                else reparseFrom (pre @ [c]) cs
            | _ \<Rightarrow> reparseFrom (pre @ [c]) cs))"

definition reparseMatch :: "string \<Rightarrow> (string \<times> string) option" where
  "reparseMatch t = reparseFrom [] t"

definition startsLower :: "string \<Rightarrow> bool" where
  \<comment> \<open>\<open>description.match(/^[a-z]/)\<close>\<close>
  "startsLower s = (case s of [] \<Rightarrow> False | c # _ \<Rightarrow> isLower c)"

definition cleanTitle :: "string \<Rightarrow> string \<Rightarrow> parsed_label" where
  \<comment> \<open>the block of \<open>parseLabel\<close> under "Clean up title if it ends with partial word"\<close>
  "cleanTitle t d =
     (if startsLower d
      then (case reparseMatch t of
              Some (r1, r2) \<Rightarrow> \<lparr>title = trim r1, description = r2 @ d\<rparr>
            | None \<Rightarrow> \<lparr>title = t, description = d\<rparr>)
      else \<lparr>title = t, description = d\<rparr>)"

text \<open>
  \<open>/^([A-Z][a-zA-Z\s]{1,40}?)([A-Z][a-z].*)/\<close>: after the leading uppercase letter the lazy
  repetition takes between 1 and 40 letters or spaces, stopping at the first length after
  which an uppercase letter and a lowercase letter follow; \<open>.*\<close> then runs to the next line
  terminator. The first argument counts the characters the repetition has taken.
\<close>

definition isBoundaryClass :: "char \<Rightarrow> bool" where
  "isBoundaryClass c = (isLower c \<or> isUpper c \<or> isSpace c)"

fun boundaryFrom :: "nat \<Rightarrow> string \<Rightarrow> string \<Rightarrow> (string \<times> string) option" where
  "boundaryFrom n pre [] = None"
| "boundaryFrom n pre (c # cs) =
     (if 40 \<le> n \<or> \<not> isBoundaryClass c then None
      else (case cs of
              u # l # rest \<Rightarrow>
                if isUpper u \<and> isLower l
                then Some (pre @ [c], takeWhile (\<lambda>x. \<not> isLineTerminator x) cs)
                else boundaryFrom (Suc n) (pre @ [c]) cs
            | _ \<Rightarrow> boundaryFrom (Suc n) (pre @ [c]) cs))"

definition boundaryMatch :: "string \<Rightarrow> (string \<times> string) option" where
  "boundaryMatch label =
     (case label of
        [] \<Rightarrow> None
      | c # cs \<Rightarrow> if isUpper c then boundaryFrom 0 [c] cs else None)"

text \<open>
  \<open>/^([^:\<dots>-]{3,40})(?:\s*[:\<dots>-]\s*)(.+)/\<close>. Group 1 and the \<open>\s*\<close> after it hold no
  separator, so the separator matched is the first one of the label, at position \<open>p\<close>.
  The greedy group 1 is the longest prefix of at most 40 characters before \<open>p\<close>; what lies
  between it and \<open>p\<close> has to be white space, and a shorter group 1 would leave more of it.
  After the separator the greedy \<open>\s*\<close> gives back characters only when nothing is left for
  \<open>.+\<close>, which then takes the last of the trailing spaces that is not a line terminator.
\<close>

definition separatorMatch :: "string \<Rightarrow> (string \<times> string) option" where
  "separatorMatch label =
     (let p = length (takeWhile (\<lambda>c. \<not> isSeparator c) label);
          k = min p 40
      in if p = length label \<or> k < 3 \<or> \<not> list_all isSpace (drop k (take p label)) then None
         else (let after = drop (Suc p) label;
                   ws = takeWhile isSpace after;
                   body = dropWhile isSpace after
               in if body \<noteq> []
                  then Some (take k label, takeWhile (\<lambda>x. \<not> isLineTerminator x) body)
                  else (case filter (\<lambda>x. \<not> isLineTerminator x) ws of
                          [] \<Rightarrow> None
                        | w # wr \<Rightarrow> Some (take k label, [last (w # wr)]))))"

definition parseLabel :: "string \<Rightarrow> parsed_label" where
  \<comment> \<open>the empty string stands for every falsy label (\<open>null\<close>, \<open>undefined\<close>, \<open>''\<close>)\<close>
  "parseLabel label =
     (if label = [] then \<lparr>title = [], description = []\<rparr>
      else (case (case sentenceStartMatch label of
                    Some (g1, g2) \<Rightarrow> if length g1 \<le> 50 then Some (g1, g2) else None
                  | None \<Rightarrow> None) of
              Some (g1, g2) \<Rightarrow> cleanTitle (trim g1) (trim g2)
            | None \<Rightarrow>
               (case boundaryMatch label of
                  Some (b1, b2) \<Rightarrow> \<lparr>title = trim b1, description = trim b2\<rparr>
                | None \<Rightarrow>
                   (case separatorMatch label of
                      Some (s1, s2) \<Rightarrow> \<lparr>title = trim s1, description = trim s2\<rparr>
                    | None \<Rightarrow> \<lparr>title = [], description = trim label\<rparr>))))"

section \<open>JavaScript values\<close>

text \<open>
  The responses reach \<open>combineResults\<close> through the browser's message passing, so they are
  JSON values; an absent response is \<open>null\<close> or \<open>undefined\<close>. An object is the list of its
  own properties in insertion order, read by its first entry for a name (the engine
  enumerates names that are array indices first; no result of the program depends on the
  order of the names of one object). A number is an integer (the lengths and indices of
  the program are); fractions and \<open>NaN\<close> are not values of the model. Values are copied,
  not shared: an array the program stores in the accumulator and extends later is an
  array of one response only, since messages do not share objects.
\<close>

datatype jsval =
    JUndefined
  | JNull
  | JBool bool
  | JNum int
  | JStr string
  | JArr "jsval list"
  | JObj "(string \<times> jsval) list"

text \<open>
  \<open>TypeError\<close> is the exception the engine throws when a property of \<open>null\<close> or \<open>undefined\<close>
  is read or a value that is not a function is called. \<open>Unmodelled\<close> marks the places where
  the program leaves the engine to coerce a value that is neither a string nor a number
  (in \<open>join\<close>, in \<open>+\<close> and in comparisons with a number), to enumerate the indices of
  a string or an array as property names, or to assign the \<open>__proto__\<close> accessor: there
  the model gives no result rather than a wrong one.
\<close>

datatype error = TypeError | Unmodelled

definition bindE :: "error + 'a \<Rightarrow> ('a \<Rightarrow> error + 'b) \<Rightarrow> error + 'b" where
  "bindE m f = (case m of Inl e \<Rightarrow> Inl e | Inr x \<Rightarrow> f x)"

fun mapE :: "('a \<Rightarrow> error + 'b) \<Rightarrow> 'a list \<Rightarrow> error + 'b list" where
  "mapE f [] = Inr []"
| "mapE f (x # xs) = bindE (f x) (\<lambda>y. bindE (mapE f xs) (\<lambda>ys. Inr (y # ys)))"

fun filterE :: "('a \<Rightarrow> error + bool) \<Rightarrow> 'a list \<Rightarrow> error + 'a list" where
  "filterE f [] = Inr []"
| "filterE f (x # xs) =
     bindE (f x) (\<lambda>keep. bindE (filterE f xs) (\<lambda>ys. Inr (if keep then x # ys else ys)))"

fun foldE :: "('s \<Rightarrow> 'a \<Rightarrow> error + 's) \<Rightarrow> 's \<Rightarrow> 'a list \<Rightarrow> error + 's" where
  "foldE f s [] = Inr s"
| "foldE f s (x # xs) = bindE (f s x) (\<lambda>s'. foldE f s' xs)"

fun truthy :: "jsval \<Rightarrow> bool" where
  "truthy JUndefined = False"
| "truthy JNull = False"
| "truthy (JBool b) = b"
| "truthy (JNum n) = (n \<noteq> 0)"
| "truthy (JStr s) = (s \<noteq> [])"
| "truthy (JArr xs) = True"
| "truthy (JObj ps) = True"

fun nullish :: "jsval \<Rightarrow> bool" where
  "nullish JUndefined = True"
| "nullish JNull = True"
| "nullish v = False"

fun isArray :: "jsval \<Rightarrow> bool" where
  "isArray (JArr xs) = True"
| "isArray v = False"

definition orElse :: "jsval \<Rightarrow> jsval \<Rightarrow> jsval" where
  \<comment> \<open>\<open>a || b\<close>\<close>
  "orElse a b = (if truthy a then a else b)"

definition lookup :: "(string \<times> jsval) list \<Rightarrow> string \<Rightarrow> jsval" where
  "lookup ps k = (case map_of ps k of None \<Rightarrow> JUndefined | Some v \<Rightarrow> v)"

definition setProp :: "(string \<times> jsval) list \<Rightarrow> string \<Rightarrow> jsval \<Rightarrow> (string \<times> jsval) list" where
  \<comment> \<open>\<open>obj[k] = v\<close>: an existing property keeps its place, a new one goes last\<close>
  "setProp ps k v = AList.update k v ps"

text \<open>
  \<open>getProp v k\<close> is \<open>v.k\<close> for a value \<open>v\<close> other than \<open>null\<close> and \<open>undefined\<close> and for the names
  the program reads (\<open>success\<close>, \<open>data\<close>, \<open>content\<close>, \<open>points\<close>, \<open>length\<close>, \<dots>): none of them is
  an array index or a member of \<open>Object.prototype\<close>. Where the program reads a property of a
  value that may be \<open>null\<close> or \<open>undefined\<close>, the model tests \<open>nullish\<close> first.
\<close>

fun getProp :: "jsval \<Rightarrow> string \<Rightarrow> jsval" where
  "getProp (JObj ps) k = lookup ps k"
| "getProp (JStr s) k = (if k = ''length'' then JNum (int (length s)) else JUndefined)"
| "getProp (JArr xs) k = (if k = ''length'' then JNum (int (length xs)) else JUndefined)"
| "getProp v k = JUndefined"

fun objectKeys :: "jsval \<Rightarrow> error + string list" where
  \<comment> \<open>\<open>Object.keys(v)\<close>\<close>
  "objectKeys (JObj ps) = Inr (remdups (map fst ps))"
| "objectKeys JUndefined = Inl TypeError"
| "objectKeys JNull = Inl TypeError"
| "objectKeys (JBool b) = Inr []"
| "objectKeys (JNum n) = Inr []"
| "objectKeys (JStr s) = (if s = [] then Inr [] else Inl Unmodelled)"
| "objectKeys (JArr xs) = (if xs = [] then Inr [] else Inl Unmodelled)"

definition gtNum :: "jsval \<Rightarrow> int \<Rightarrow> error + bool" where
  \<comment> \<open>\<open>v > n\<close>; \<open>undefined\<close> converts to \<open>NaN\<close>, which compares false\<close>
  "gtNum v n = (case v of JNum a \<Rightarrow> Inr (n < a) | JUndefined \<Rightarrow> Inr False | _ \<Rightarrow> Inl Unmodelled)"

definition ltNum :: "jsval \<Rightarrow> int \<Rightarrow> error + bool" where
  \<comment> \<open>\<open>v < n\<close>\<close>
  "ltNum v n = (case v of JNum a \<Rightarrow> Inr (a < n) | JUndefined \<Rightarrow> Inr False | _ \<Rightarrow> Inl Unmodelled)"

definition joinText :: "jsval \<Rightarrow> error + string" where
  \<comment> \<open>what \<open>Array.prototype.join\<close> writes for one element\<close>
  "joinText v =
     (case v of JStr s \<Rightarrow> Inr s | JUndefined \<Rightarrow> Inr [] | JNull \<Rightarrow> Inr [] | _ \<Rightarrow> Inl Unmodelled)"

fun joinBar :: "string list \<Rightarrow> string" where
  "joinBar [] = []"
| "joinBar [s] = s"
| "joinBar (s # t # ss) = s @ ''|'' @ joinBar (t # ss)"

definition arrayJoin :: "jsval list \<Rightarrow> error + string" where
  \<comment> \<open>\<open>xs.join('|')\<close>\<close>
  "arrayJoin xs = bindE (mapE joinText xs) (\<lambda>ss. Inr (joinBar ss))"

definition toLowerChar :: "char \<Rightarrow> char" where
  "toLowerChar c =
     (let n = (of_char c :: nat)
      in if (65 \<le> n \<and> n \<le> 90) \<or> (192 \<le> n \<and> n \<le> 222 \<and> n \<noteq> 215) then char_of (n + 32) else c)"

definition toLowerCase :: "string \<Rightarrow> string" where
  "toLowerCase s = map toLowerChar s"

definition includesStr :: "string \<Rightarrow> string \<Rightarrow> bool" where
  \<comment> \<open>\<open>s.includes(t)\<close>\<close>
  "includesStr s t = sublist t s"

section \<open>Fingerprint Generator: \<open>generateContentHash\<close>\<close>

definition pointLabel :: "jsval \<Rightarrow> error + jsval" where
  \<comment> \<open>\<open>p => p.title || p.description || p.label || ''\<close>\<close>
  "pointLabel p =
     (if nullish p then Inl TypeError
      else Inr (orElse (getProp p ''title'')
                 (orElse (getProp p ''description'') (orElse (getProp p ''label'') (JStr [])))))"

definition primaryContent :: "jsval \<Rightarrow> jsval" where
  \<comment> \<open>\<open>item.content || item.question || item.title || item.description || item.label || ''\<close>\<close>
  "primaryContent item =
     orElse (getProp item ''content'')
       (orElse (getProp item ''question'')
         (orElse (getProp item ''title'')
           (orElse (getProp item ''description'') (orElse (getProp item ''label'') (JStr [])))))"

definition generateContentHash :: "jsval \<Rightarrow> error + string" where
  "generateContentHash item =
     (if \<not> truthy item then Inr []
      else (case getProp item ''points'' of
              JArr pts \<Rightarrow>
                bindE (mapE pointLabel pts) (\<lambda>labels.
                bindE (filterE (\<lambda>s. gtNum (getProp s ''length'') 0) labels) (\<lambda>kept.
                bindE (arrayJoin kept) (\<lambda>pointContent.
                Inr (substring0 200 pointContent))))
            | _ \<Rightarrow>
                (case primaryContent item of
                   JStr content \<Rightarrow> Inr (substring0 200 content)
                 | _ \<Rightarrow> Inl TypeError)))"

section \<open>Source Merger\<close>

text \<open>
  The accumulator \<open>combined\<close> of \<open>combineResults\<close>: the own properties of
  \<open>combined.metadata\<close> and of \<open>combined.content\<close>. The statistics are added at the end.
\<close>

record combined =
  metadata :: "(string \<times> jsval) list"
  content :: "(string \<times> jsval) list"

record document = combined +
  statistics :: "(string \<times> jsval) list"

definition initialCombined :: "string \<Rightarrow> combined" where
  \<comment> \<open>\<open>now\<close> is \<open>new Date().toISOString()\<close>\<close>
  "initialCombined now =
     \<lparr>metadata = [(''scrapedAt'', JStr now), (''url'', JStr []), (''course'', JStr []),
                  (''lesson'', JStr []), (''path'', JStr [])],
      content = [(''flipCards'', JArr []), (''hotspots'', JArr []), (''knowledgeChecks'', JArr []),
                 (''accordions'', JArr []), (''tabs'', JArr []), (''images'', JArr []),
                 (''textBlocks'', JArr []), (''lists'', JArr []), (''tables'', JArr []),
                 (''videos'', JArr []), (''rawText'', JStr [])]\<rparr>"

definition objectPrototypeKeys :: "string list" where
  "objectPrototypeKeys =
     [''__proto__'', ''constructor'', ''hasOwnProperty'', ''isPrototypeOf'',
      ''propertyIsEnumerable'', ''toLocaleString'', ''toString'', ''valueOf'',
      ''__defineGetter__'', ''__defineSetter__'', ''__lookupGetter__'', ''__lookupSetter__'']"

definition metadataHolds :: "(string \<times> jsval) list \<Rightarrow> string \<Rightarrow> bool" where
  \<comment> \<open>the truth value of \<open>combined.metadata[key]\<close>: an own property, or a member inherited
      from \<open>Object.prototype\<close> (a function or an object, so truthy)\<close>
  "metadataHolds md key = (truthy (lookup md key) \<or> key \<in> set objectPrototypeKeys)"

definition mergeMetadata :: "(string \<times> jsval) list \<Rightarrow> jsval \<Rightarrow> error + (string \<times> jsval) list" where
  \<comment> \<open>\<open>Object.keys(src).forEach(key => { if (src[key] && !combined.metadata[key])
      combined.metadata[key] = src[key]; })\<close>\<close>
  "mergeMetadata md src =
     bindE (objectKeys src) (\<lambda>keys.
       Inr (foldl (\<lambda>m key. if truthy (getProp src key) \<and> \<not> metadataHolds m key
                             then setProp m key (getProp src key) else m) md keys))"

definition mergeContentKey :: "jsval \<Rightarrow> combined \<Rightarrow> string \<Rightarrow> error + combined" where
  \<comment> \<open>the body of \<open>Object.keys(response.data.content).forEach(key => \<dots>)\<close>; \<open>src\<close> is
      \<open>response.data.content\<close>\<close>
  "mergeContentKey src c key =
     (if key = ''metadata''
      then bindE (mergeMetadata (metadata c) (getProp src ''metadata''))
             (\<lambda>md. Inr (c\<lparr>metadata := md\<rparr>))
      else if key = ''__proto__'' then Inl Unmodelled
      else (case (lookup (content c) key, getProp src key) of
              (JArr held, JArr items) \<Rightarrow>
                Inr (c\<lparr>content := setProp (content c) key (JArr (held @ items))\<rparr>)
            | (held, v) \<Rightarrow>
                if truthy v then Inr (c\<lparr>content := setProp (content c) key v\<rparr>) else Inr c))"

definition isBareMetadata :: "jsval \<Rightarrow> bool" where
  \<comment> \<open>\<open>response && !response.success && !response.data &&
      (response.url || response.course || response.lesson)\<close>\<close>
  "isBareMetadata response =
     (truthy response \<and> \<not> truthy (getProp response ''success'')
      \<and> \<not> truthy (getProp response ''data'')
      \<and> (truthy (getProp response ''url'') \<or> truthy (getProp response ''course'')
           \<or> truthy (getProp response ''lesson'')))"

definition mergeResponse :: "combined \<Rightarrow> jsval \<Rightarrow> error + combined" where
  \<comment> \<open>the body of \<open>responses.forEach(response => \<dots>)\<close>\<close>
  "mergeResponse c response =
     (if isBareMetadata response
      then bindE (mergeMetadata (metadata c) response) (\<lambda>md. Inr (c\<lparr>metadata := md\<rparr>))
      else if truthy response \<and> truthy (getProp response ''success'')
              \<and> truthy (getProp response ''data'')
      then (let data = getProp response ''data'' in
            bindE (if truthy (getProp data ''metadata'')
                   then bindE (mergeMetadata (metadata c) (getProp data ''metadata''))
                          (\<lambda>md. Inr (c\<lparr>metadata := md\<rparr>))
                   else Inr c) (\<lambda>c1.
            if truthy (getProp data ''content'')
            then bindE (objectKeys (getProp data ''content''))
                   (\<lambda>keys. foldE (mergeContentKey (getProp data ''content'')) c1 keys)
            else Inr c1))
      else Inr c)"

definition mergeAll :: "string \<Rightarrow> jsval list \<Rightarrow> error + combined" where
  "mergeAll now responses = foldE mergeResponse (initialCombined now) responses"

section \<open>Deduplicator and the category passes\<close>

text \<open>
  Every pass of \<open>combineResults\<close> is an \<open>Array.prototype.filter\<close> over a \<open>Set\<close> of the keys
  seen so far. The callback of a pass is its key function: \<open>None\<close> where the callback
  returns \<open>false\<close> before it looks at the set, \<open>Some key\<close> where it goes on to
  \<open>if (seen.has(key)) return false; seen.add(key); return true\<close>.
\<close>

fun filterSeen :: "('a \<Rightarrow> error + string option) \<Rightarrow> string set \<Rightarrow> 'a list \<Rightarrow> error + 'a list" where
  "filterSeen key seen [] = Inr []"
| "filterSeen key seen (x # xs) =
     (case key x of
        Inl e \<Rightarrow> Inl e
      | Inr None \<Rightarrow> filterSeen key seen xs
      | Inr (Some h) \<Rightarrow>
          if h \<in> seen then filterSeen key seen xs
          else (case filterSeen key (insert h seen) xs of
                  Inl e \<Rightarrow> Inl e
                | Inr kept \<Rightarrow> Inr (x # kept)))"

definition contentHashKey :: "jsval \<Rightarrow> error + string option" where
  \<comment> \<open>\<open>const hash = generateContentHash(item); if (!hash || hash.length < 5) return false;\<close>\<close>
  "contentHashKey item =
     bindE (generateContentHash item)
       (\<lambda>hash. Inr (if hash = [] \<or> length hash < 5 then None else Some hash))"

definition dedupEntry :: "string \<times> jsval \<Rightarrow> error + (string \<times> jsval)" where
  "dedupEntry e =
     (case snd e of
        JArr items \<Rightarrow> bindE (filterSeen contentHashKey {} items) (\<lambda>kept. Inr (fst e, JArr kept))
      | _ \<Rightarrow> Inr e)"

definition dedupContent :: "(string \<times> jsval) list \<Rightarrow> error + (string \<times> jsval) list" where
  \<comment> \<open>\<open>Object.keys(combined.content).forEach(key => \<dots>)\<close>: each own property in turn (their
      names are distinct); the filter of a key reads and writes that key only\<close>
  "dedupContent ct = mapE dedupEntry ct"

definition pointKey :: "jsval \<Rightarrow> error + string" where
  \<comment> \<open>\<open>(point.title || '') + '|' + (point.description || point.rawLabel || '').substring(0, 100)\<close>\<close>
  "pointKey point =
     (if nullish point then Inl TypeError
      else bindE (case orElse (getProp point ''title'') (JStr []) of
                    JStr t \<Rightarrow> Inr t
                  | _ \<Rightarrow> Inl Unmodelled) (\<lambda>t.
           bindE (case orElse (getProp point ''description'')
                         (orElse (getProp point ''rawLabel'') (JStr [])) of
                    JStr d \<Rightarrow> Inr (substring0 100 d)
                  | _ \<Rightarrow> Inl TypeError) (\<lambda>d.
           Inr (t @ ''|'' @ d))))"

definition spreadProps :: "jsval \<Rightarrow> error + (string \<times> jsval) list" where
  \<comment> \<open>the properties \<open>{...v}\<close> copies\<close>
  "spreadProps v =
     (case v of
        JObj ps \<Rightarrow> Inr ps
      | JStr s \<Rightarrow> if s = [] then Inr [] else Inl Unmodelled
      | JArr xs \<Rightarrow> if xs = [] then Inr [] else Inl Unmodelled
      | _ \<Rightarrow> Inr [])"

definition collapsePoint :: "string set \<times> jsval list \<Rightarrow> jsval \<Rightarrow> error + (string set \<times> jsval list)" where
  \<comment> \<open>the body of \<open>hotspot.points.forEach(point => \<dots>)\<close>; the state is
      \<open>(seenPointHashes, allHotspotPoints)\<close>\<close>
  "collapsePoint st point =
     bindE (pointKey point) (\<lambda>meaningfulContent.
       if 5 < length meaningfulContent \<and> meaningfulContent \<notin> fst st
       then bindE (spreadProps point) (\<lambda>ps.
              Inr (insert meaningfulContent (fst st),
                   snd st @ [JObj (setProp ps ''index'' (JNum (int (length (snd st)))))]))
       else Inr st)"

definition collapseHotspot :: "string set \<times> jsval list \<Rightarrow> jsval \<Rightarrow> error + (string set \<times> jsval list)" where
  \<comment> \<open>the body of \<open>combined.content.hotspots.forEach(hotspot => \<dots>)\<close>\<close>
  "collapseHotspot st hotspot =
     (if nullish hotspot then Inl TypeError
      else (case getProp hotspot ''points'' of
              JArr points \<Rightarrow> foldE collapsePoint st points
            | _ \<Rightarrow> Inr st))"

definition collapseHotspots :: "jsval \<Rightarrow> error + jsval" where
  \<comment> \<open>from \<open>combined.content.hotspots\<close> to its replacement\<close>
  "collapseHotspots hs =
     (case hs of
        JArr hotspots \<Rightarrow>
          bindE (foldE collapseHotspot ({}, []) hotspots) (\<lambda>st.
            Inr (JArr (if snd st \<noteq> []
                       then [JObj [(''id'', JStr ''hotspots-combined''), (''points'', JArr (snd st))]]
                       else [])))
      | _ \<Rightarrow> Inl TypeError)"

definition textBlockKey :: "jsval \<Rightarrow> error + string option" where
  \<comment> \<open>\<open>(block.content || '').substring(0, 100)\<close>\<close>
  "textBlockKey block =
     (if nullish block then Inl TypeError
      else (case orElse (getProp block ''content'') (JStr []) of
              JStr c \<Rightarrow> Inr (Some (substring0 100 c))
            | _ \<Rightarrow> Inl TypeError))"

definition listKey :: "jsval \<Rightarrow> error + string option" where
  \<comment> \<open>\<open>(list.items || []).join('|').substring(0, 150)\<close>\<close>
  "listKey l =
     (if nullish l then Inl TypeError
      else (case orElse (getProp l ''items'') (JArr []) of
              JArr xs \<Rightarrow> bindE (arrayJoin xs) (\<lambda>s. Inr (Some (substring0 150 s)))
            | _ \<Rightarrow> Inl TypeError))"

definition FALSE_POSITIVE_KC :: "string list" where
  "FALSE_POSITIVE_KC =
     [''you are offline'', ''trying to reconnect'', ''loading'', ''please wait'',
      ''error occurred'', ''begin by'', ''select either option'']"

definition knowledgeCheckKey :: "jsval \<Rightarrow> error + string option" where
  "knowledgeCheckKey kc =
     (if nullish kc then Inl TypeError
      else (let question = getProp kc ''question'' in
            if \<not> truthy question then Inr None
            else bindE (ltNum (getProp question ''length'') 10) (\<lambda>short.
                   if short then Inr None
                   else (case question of
                           JStr q \<Rightarrow>
                             if list_ex (\<lambda>fp. includesStr (toLowerCase q) fp) FALSE_POSITIVE_KC
                             then Inr None
                             else Inr (Some (substring0 100 q))
                         | _ \<Rightarrow> Inl TypeError))))"

definition filterCategory ::
  "(jsval \<Rightarrow> error + string option) \<Rightarrow> string \<Rightarrow> (string \<times> jsval) list \<Rightarrow> error + (string \<times> jsval) list" where
  \<comment> \<open>\<open>combined.content[name] = combined.content[name].filter(\<dots>)\<close>; only an array has
      \<open>filter\<close>\<close>
  "filterCategory key name ct =
     (case lookup ct name of
        JArr xs \<Rightarrow> bindE (filterSeen key {} xs) (\<lambda>kept. Inr (setProp ct name (JArr kept)))
      | _ \<Rightarrow> Inl TypeError)"

section \<open>Statistics Aggregator\<close>

definition categories :: "string list" where
  "categories =
     [''flipCards'', ''hotspots'', ''knowledgeChecks'', ''accordions'', ''tabs'', ''images'',
      ''textBlocks'', ''lists'', ''tables'', ''videos'']"

definition lengthOf :: "jsval \<Rightarrow> error + jsval" where
  \<comment> \<open>\<open>v.length\<close>\<close>
  "lengthOf v = (if nullish v then Inl TypeError else Inr (getProp v ''length''))"

fun isNumber :: "jsval \<Rightarrow> bool" where
  \<comment> \<open>\<open>typeof v === 'number'\<close>\<close>
  "isNumber (JNum n) = True"
| "isNumber v = False"

fun numberOf :: "jsval \<Rightarrow> int" where
  "numberOf (JNum n) = n"
| "numberOf v = 0"

definition sumNumbers :: "(string \<times> jsval) list \<Rightarrow> int" where
  \<comment> \<open>\<open>Object.values(stats).filter(v => typeof v === 'number').reduce((a, b) => a + b, 0)\<close>\<close>
  "sumNumbers stats = foldl (+) 0 (map numberOf (filter isNumber (map snd stats)))"

definition calculateStatistics :: "(string \<times> jsval) list \<Rightarrow> error + (string \<times> jsval) list" where
  "calculateStatistics ct =
     bindE (mapE (\<lambda>name. bindE (lengthOf (lookup ct name)) (\<lambda>n. Inr (name, n))) categories)
       (\<lambda>counts. let stats = counts @ [(''totalItems'', JNum 0)]
                 in Inr (setProp stats ''totalItems'' (JNum (sumNumbers stats))))"

section \<open>The pipeline: \<open>combineResults\<close>\<close>

definition combineResults :: "string \<Rightarrow> jsval list \<Rightarrow> error + document" where
  "combineResults now responses =
     bindE (mergeAll now responses) (\<lambda>merged.
     bindE (dedupContent (content merged)) (\<lambda>c1.
     bindE (collapseHotspots (lookup c1 ''hotspots'')) (\<lambda>hs.
     bindE (filterCategory textBlockKey ''textBlocks'' (setProp c1 ''hotspots'' hs)) (\<lambda>c2.
     bindE (filterCategory listKey ''lists'' c2) (\<lambda>c3.
     bindE (filterCategory knowledgeCheckKey ''knowledgeChecks'' c3) (\<lambda>c4.
     bindE (calculateStatistics c4) (\<lambda>stats.
     Inr \<lparr>metadata = metadata merged, content = c4, statistics = stats\<rparr>)))))))"

section \<open>Example responses\<close>

definition envelope :: "(string \<times> jsval) list \<Rightarrow> (string \<times> jsval) list \<Rightarrow> jsval" where
  \<comment> \<open>\<open>{success: true, data: {metadata: md, content: ct}}\<close>\<close>
  "envelope md ct =
     JObj [(''success'', JBool True),
           (''data'', JObj [(''metadata'', JObj md), (''content'', JObj ct)])]"

definition scrapeTime :: string where
  "scrapeTime = ''2025-12-14T15:19:20.036Z''"


definition quizResponse :: jsval where
  \<comment> \<open>two knowledge checks, the first with a question of 6 characters\<close>
  "quizResponse =
     envelope []
       [(''knowledgeChecks'',
           JArr [JObj [(''question'', JStr ''Short?'')],
                 JObj [(''question'', JStr ''Which role can invite users?'')]])]"

definition textItem :: "string \<Rightarrow> jsval" where
  \<comment> \<open>a text block \<open>{content: s}\<close>\<close>
  "textItem s = JObj [(''content'', JStr s)]"




definition firstLesson :: jsval where
  "firstLesson =
     envelope [] [(''textBlocks'', JArr [textItem ''Account settings'']),
                  (''rawText'', JStr ''first lesson text'')]"

definition secondLesson :: jsval where
  "secondLesson =
     envelope [] [(''textBlocks'', JArr [textItem ''Transfer ownership'']),
                  (''rawText'', JStr ''second lesson text''),
                  (''videos'', JStr [])]"


section \<open>The fingerprint in the words of the specification\<close>






section \<open>The re-split in the words of the specification\<close>



section \<open>Well-formed responses\<close>










section \<open>Auxiliary definitions\<close>

definition metadataStep :: "jsval \<Rightarrow> (string \<times> jsval) list \<Rightarrow> string \<Rightarrow> (string \<times> jsval) list" where
  \<comment> \<open>the callback of \<open>mergeMetadata\<close> for one key\<close>
  "metadataStep src m key =
     (if truthy (getProp src key) \<and> \<not> metadataHolds m key then setProp m key (getProp src key) else m)"

definition emptyContent :: "(string \<times> jsval) list" where
  \<comment> \<open>\<open>combined.content\<close> as \<open>combineResults\<close> creates it\<close>
  "emptyContent = content (initialCombined [])"

definition mergedValue :: "jsval \<Rightarrow> jsval \<Rightarrow> jsval" where
  \<comment> \<open>what \<open>combined.content[key]\<close> holds after the merge of a source value \<open>v\<close>\<close>
  "mergedValue held v =
     (case (held, v) of
        (JArr xs, JArr ys) \<Rightarrow> JArr (xs @ ys)
      | _ \<Rightarrow> if truthy v then v else held)"



section \<open>Basic facts\<close>

lemma bindE_Inl [simp]: "bindE (Inl e) f = Inl e"
  by (simp add: bindE_def)

lemma bindE_Inr [simp]: "bindE (Inr x) f = f x"
  by (simp add: bindE_def)

lemma bindE_eq_Inr: "bindE m f = Inr y \<longleftrightarrow> (\<exists>x. m = Inr x \<and> f x = Inr y)"
  by (cases m) simp_all






lemma combineResults_Inr:
  assumes "combineResults now responses = Inr d"
  obtains merged c1 hs c2 c3 where
    "mergeAll now responses = Inr merged"
    "dedupContent (content merged) = Inr c1"
    "collapseHotspots (lookup c1 ''hotspots'') = Inr hs"
    "filterCategory textBlockKey ''textBlocks'' (setProp c1 ''hotspots'' hs) = Inr c2"
    "filterCategory listKey ''lists'' c2 = Inr c3"
    "filterCategory knowledgeCheckKey ''knowledgeChecks'' c3 = Inr (content d)"
    "calculateStatistics (content d) = Inr (statistics d)"
    "metadata d = metadata merged"
  using assms unfolding combineResults_def bindE_eq_Inr by auto






section \<open>Statistics consistency\<close>




section \<open>The reference labels\<close>

text \<open>
  Claim C8. The Label Segmenter maps the three reference labels as the specification says:
  the sentence-start rule splits \<open>Require MFAThe first time\<dots>\<close> before \<open>The\<close>, the
  separator rule splits \<open>Status: Active\<close> at the colon, and plain lowercase text falls
  through to the fallback with an empty title.
\<close>

theorem parseLabel_reference_labels:
  "parseLabel ''Require MFAThe first time a user logs in, they must set up MFA.''
     = \<lparr>title = ''Require MFA'',
        description = ''The first time a user logs in, they must set up MFA.''\<rparr>
   \<and> parseLabel ''Status: Active'' = \<lparr>title = ''Status'', description = ''Active''\<rparr>
   \<and> parseLabel ''just some plain text''
     = \<lparr>title = [], description = ''just some plain text''\<rparr>"
proof (intro conjI)
  show "parseLabel ''Require MFAThe first time a user logs in, they must set up MFA.''
     = \<lparr>title = ''Require MFA'',
        description = ''The first time a user logs in, they must set up MFA.''\<rparr>"
    by code_simp
  show "parseLabel ''Status: Active'' = \<lparr>title = ''Status'', description = ''Active''\<rparr>"
    by code_simp
  show "parseLabel ''just some plain text''
     = \<lparr>title = [], description = ''just some plain text''\<rparr>"
    by code_simp
qed

section \<open>Facts about the filter passes\<close>

lemma lookup_setProp: "lookup (setProp ps k v) k' = (if k' = k then v else lookup ps k')"
  by (simp add: lookup_def setProp_def update_conv')

lemma filterSeen_kept:
  "filterSeen key seen xs = Inr ys \<Longrightarrow> y \<in> set ys \<Longrightarrow>
   y \<in> set xs \<and> (\<exists>h. key y = Inr (Some h) \<and> h \<notin> seen)"
proof (induction xs arbitrary: seen ys)
  case Nil
  then show ?case by simp
next
  case (Cons x xs)
  show ?case
  proof (cases "key x")
    case (Inl e)
    with Cons.prems show ?thesis by simp
  next
    case (Inr r)
    show ?thesis
    proof (cases r)
      case None
      with Inr Cons show ?thesis by auto
    next
      case (Some h)
      show ?thesis
      proof (cases "h \<in> seen")
        case True
        with Inr Some Cons show ?thesis by auto
      next
        case False
        with Inr Some Cons.prems obtain kept where
          k: "filterSeen key (insert h seen) xs = Inr kept" and ys: "ys = x # kept"
          by (auto split: sum.splits)
        show ?thesis
        proof (cases "y = x")
          case True
          with Inr Some False show ?thesis by simp
        next
          case ne: False
          with ys Cons.prems have "y \<in> set kept" by simp
          from Cons.IH [OF k this] show ?thesis by auto
        qed
      qed
    qed
  qed
qed

lemma filterSeen_subseq: "filterSeen key seen xs = Inr ys \<Longrightarrow> subseq ys xs"
proof (induction xs arbitrary: seen ys)
  case Nil
  then show ?case by simp
next
  case (Cons x xs)
  then show ?case
    by (auto split: sum.splits option.splits if_splits)
qed

lemma filterSeen_fixed: "filterSeen key seen xs = Inr ys \<Longrightarrow> filterSeen key seen ys = Inr ys"
proof (induction xs arbitrary: seen ys)
  case Nil
  then show ?case by simp
next
  case (Cons x xs)
  then show ?case
    by (auto split: sum.splits option.splits if_splits)
qed

lemma filterSeen_all_kept:
  "mapE key xs = Inr hs \<Longrightarrow> None \<notin> set hs \<Longrightarrow> distinct hs \<Longrightarrow> Some ` seen \<inter> set hs = {}
   \<Longrightarrow> filterSeen key seen xs = Inr xs"
proof (induction xs arbitrary: seen hs)
  case Nil
  then show ?case by simp
next
  case (Cons x xs)
  from Cons.prems(1) obtain h hs' where
    kx: "key x = Inr h" and m: "mapE key xs = Inr hs'" and hs: "hs = h # hs'"
    by (auto simp: bindE_eq_Inr)
  from Cons.prems(2) hs obtain g where h: "h = Some g" by (cases h) auto
  from Cons.prems hs h have "g \<notin> seen" by auto
  moreover have "filterSeen key (insert g seen) xs = Inr xs"
  proof (rule Cons.IH [OF m])
    show "None \<notin> set hs'" using Cons.prems(2) hs by simp
    show "distinct hs'" using Cons.prems(3) hs by simp
    show "Some ` insert g seen \<inter> set hs' = {}" using Cons.prems(3,4) hs h by auto
  qed
  ultimately show ?case using kx h by simp
qed

lemma filterCategory_Inr:
  assumes "filterCategory key name ct = Inr ct'"
  obtains xs kept where "lookup ct name = JArr xs" "filterSeen key {} xs = Inr kept"
    "ct' = setProp ct name (JArr kept)"
  using assms unfolding filterCategory_def by (auto simp: bindE_eq_Inr split: jsval.splits)

lemma knowledgeCheckKey_Some:
  assumes "knowledgeCheckKey kc = Inr (Some h)"
  shows "\<exists>q. getProp kc ''question'' = JStr q \<and> 10 \<le> length q"
proof -
  from assms have t: "truthy (getProp kc ''question'')"
    by (auto simp: knowledgeCheckKey_def Let_def split: if_splits)
  from assms t obtain short where
    s: "ltNum (getProp (getProp kc ''question'') ''length'') 10 = Inr short" and ns: "\<not> short"
    and q: "(case getProp kc ''question'' of
               JStr q \<Rightarrow> if list_ex (\<lambda>fp. includesStr (toLowerCase q) fp) FALSE_POSITIVE_KC
                         then Inr None else Inr (Some (substring0 100 q))
             | _ \<Rightarrow> Inl TypeError) = Inr (Some h)"
    by (auto simp: knowledgeCheckKey_def Let_def bindE_eq_Inr split: if_splits)
  from q obtain qs where qs: "getProp kc ''question'' = JStr qs"
    by (cases "getProp kc ''question''") auto
  with s ns have "10 \<le> length qs" by (auto simp: ltNum_def)
  with qs show ?thesis by blast
qed

lemma knowledgeCheckKey_short:
  assumes "\<not> nullish kc"
    and "\<not> truthy (getProp kc ''question'') \<or> (\<exists>q. getProp kc ''question'' = JStr q \<and> length q < 10)"
  shows "knowledgeCheckKey kc = Inr None"
  using assms by (auto simp: knowledgeCheckKey_def Let_def ltNum_def)

section \<open>Knowledge checks\<close>

text \<open>
  Claim C10. The last pass of \<open>combineResults\<close> keeps a knowledge check only when its
  \<open>question\<close> is a string of at least 10 characters: in every document returned, each
  surviving knowledge check has such a question; a knowledge check whose question is
  missing, empty or shorter than 10 characters is dropped whatever the others are; and a
  question of 5 to 9 characters passes the generic fingerprint pass and is dropped here.
\<close>

theorem knowledgeChecks_question_length:
  "(\<forall>now responses d. combineResults now responses = Inr d \<longrightarrow>
      (\<exists>kcs. lookup (content d) ''knowledgeChecks'' = JArr kcs
         \<and> (\<forall>kc\<in>set kcs. \<exists>q. getProp kc ''question'' = JStr q \<and> 10 \<le> length q)))
   \<and> (\<forall>kc. \<not> nullish kc \<and> (\<not> truthy (getProp kc ''question'')
              \<or> (\<exists>q. getProp kc ''question'' = JStr q \<and> length q < 10))
          \<longrightarrow> knowledgeCheckKey kc = Inr None)
   \<and> (\<forall>q. 5 \<le> length q \<and> length q < 10 \<longrightarrow>
          contentHashKey (JObj [(''question'', JStr q)]) = Inr (Some q)
          \<and> knowledgeCheckKey (JObj [(''question'', JStr q)]) = Inr None)"
proof (intro conjI allI impI)
  fix now responses d
  assume "combineResults now responses = Inr d"
  then obtain c3 where "filterCategory knowledgeCheckKey ''knowledgeChecks'' c3 = Inr (content d)"
    by (rule combineResults_Inr)
  then obtain xs kept where k: "filterSeen knowledgeCheckKey {} xs = Inr kept"
    and c: "content d = setProp c3 ''knowledgeChecks'' (JArr kept)"
    by (rule filterCategory_Inr)
  have "lookup (content d) ''knowledgeChecks'' = JArr kept"
    by (simp add: c lookup_setProp)
  moreover have "\<exists>q. getProp kc ''question'' = JStr q \<and> 10 \<le> length q" if "kc \<in> set kept" for kc
    using filterSeen_kept [OF k that] knowledgeCheckKey_Some by blast
  ultimately show "\<exists>kcs. lookup (content d) ''knowledgeChecks'' = JArr kcs
         \<and> (\<forall>kc\<in>set kcs. \<exists>q. getProp kc ''question'' = JStr q \<and> 10 \<le> length q)"
    by blast
next
  fix kc
  assume "\<not> nullish kc \<and> (\<not> truthy (getProp kc ''question'')
              \<or> (\<exists>q. getProp kc ''question'' = JStr q \<and> length q < 10))"
  then show "knowledgeCheckKey kc = Inr None"
    using knowledgeCheckKey_short by blast
next
  fix q :: string
  assume q: "5 \<le> length q \<and> length q < 10"
  then have ne: "q \<noteq> []" by auto
  with q show "contentHashKey (JObj [(''question'', JStr q)]) = Inr (Some q)"
    by (simp add: contentHashKey_def generateContentHash_def primaryContent_def orElse_def
        lookup_def substring0_def)
next
  fix q :: string
  assume q: "5 \<le> length q \<and> length q < 10"
  then show "knowledgeCheckKey (JObj [(''question'', JStr q)]) = Inr None"
    by (intro knowledgeCheckKey_short) (simp_all add: lookup_def)
qed


theorem knowledgeChecks_question_length_example:
  "(\<exists>d. combineResults scrapeTime [quizResponse] = Inr d
        \<and> lookup (content d) ''knowledgeChecks''
            = JArr [JObj [(''question'', JStr ''Which role can invite users?'')]])
   \<and> contentHashKey (JObj [(''question'', JStr ''Short?'')]) = Inr (Some ''Short?'')
   \<and> knowledgeCheckKey (JObj [(''question'', JStr ''Short?'')]) = Inr None"
proof -
  let ?d = "projr (combineResults scrapeTime [quizResponse])"
  have d: "combineResults scrapeTime [quizResponse] = Inr ?d"
    by code_simp
  from knowledgeChecks_question_length d obtain kcs where
    kcs: "lookup (content ?d) ''knowledgeChecks'' = JArr kcs"
    and long: "\<forall>kc\<in>set kcs. \<exists>q. getProp kc ''question'' = JStr q \<and> 10 \<le> length q"
    by blast
  have kept: "lookup (content ?d) ''knowledgeChecks''
            = JArr [JObj [(''question'', JStr ''Which role can invite users?'')]]"
    by code_simp
  have short: "5 \<le> length ''Short?'' \<and> length ''Short?'' < 10"
    by simp
  from knowledgeChecks_question_length short
  have "contentHashKey (JObj [(''question'', JStr ''Short?'')]) = Inr (Some ''Short?'')
      \<and> knowledgeCheckKey (JObj [(''question'', JStr ''Short?'')]) = Inr None"
    by blast
  with d kept show ?thesis
    by blast
qed

section \<open>Idempotent deduplication\<close>

lemma mapE_fixed:
  "mapE f xs = Inr ys \<Longrightarrow> (\<And>x y. f x = Inr y \<Longrightarrow> f y = Inr y) \<Longrightarrow> mapE f ys = Inr ys"
proof (induction xs arbitrary: ys)
  case Nil
  then show ?case by simp
next
  case (Cons x xs)
  then show ?case by (auto simp: bindE_eq_Inr)
qed

lemma mapE_bind_map:
  "mapE f xs = Inr ys \<Longrightarrow> mapE (\<lambda>x. bindE (f x) (\<lambda>h. Inr (g h))) xs = Inr (map g ys)"
proof (induction xs arbitrary: ys)
  case Nil
  then show ?case by simp
next
  case (Cons x xs)
  then show ?case by (auto simp: bindE_eq_Inr)
qed

lemma dedupEntry_fixed: "dedupEntry e = Inr e' \<Longrightarrow> dedupEntry e' = Inr e'"
  by (cases "snd e") (auto simp: dedupEntry_def bindE_eq_Inr dest: filterSeen_fixed)


text \<open>
  Claim C4. The Deduplicator is idempotent: the pass over all categories, applied to a
  content it has returned, returns it unchanged, and so does the filter of one category.
  What the filter keeps is in arrival order (a subsequence of its input), and items whose
  fingerprints are distinct and at least 5 characters long are all kept, in their order.
\<close>

theorem deduplicator_idempotent:
  "(\<forall>ct ct'. dedupContent ct = Inr ct' \<longrightarrow> dedupContent ct' = Inr ct')
   \<and> (\<forall>items kept. filterSeen contentHashKey {} items = Inr kept
         \<longrightarrow> filterSeen contentHashKey {} kept = Inr kept \<and> subseq kept items)
   \<and> (\<forall>items hs. mapE generateContentHash items = Inr hs \<and> distinct hs \<and> (\<forall>h\<in>set hs. 5 \<le> length h)
         \<longrightarrow> filterSeen contentHashKey {} items = Inr items)"
proof (intro conjI allI impI)
  fix ct ct'
  assume "dedupContent ct = Inr ct'"
  then show "dedupContent ct' = Inr ct'"
    unfolding dedupContent_def by (rule mapE_fixed) (rule dedupEntry_fixed)
next
  fix items kept
  assume "filterSeen contentHashKey {} items = Inr kept"
  then show "filterSeen contentHashKey {} kept = Inr kept"
    by (rule filterSeen_fixed)
next
  fix items kept
  assume "filterSeen contentHashKey {} items = Inr kept"
  then show "subseq kept items"
    by (rule filterSeen_subseq)
next
  fix items hs
  assume a: "mapE generateContentHash items = Inr hs \<and> distinct hs \<and> (\<forall>h\<in>set hs. 5 \<le> length h)"
  let ?g = "\<lambda>hash. if hash = [] \<or> length hash < 5 then None else Some hash"
  from a have "mapE (\<lambda>x. bindE (generateContentHash x) (\<lambda>h. Inr (?g h))) items = Inr (map ?g hs)"
    by (intro mapE_bind_map) simp
  moreover from a have "map ?g hs = map Some hs"
    by (intro map_cong) auto
  ultimately have m: "mapE contentHashKey items = Inr (map Some hs)"
    by (simp add: contentHashKey_def [abs_def])
  show "filterSeen contentHashKey {} items = Inr items"
  proof (rule filterSeen_all_kept [OF m])
    show "None \<notin> set (map Some hs)" by auto
    show "distinct (map Some hs)" using a by (simp add: distinct_map)
    show "Some ` {} \<inter> set (map Some hs) = {}" by simp
  qed
qed

theorem deduplicator_idempotent_example:
  "dedupContent [(''textBlocks'', JArr [textItem ''Account settings'', textItem ''Roles'',
                                       textItem ''Account settings'', textItem ''Next''])]
     = Inr [(''textBlocks'', JArr [textItem ''Account settings'', textItem ''Roles''])]
   \<and> dedupContent [(''textBlocks'', JArr [textItem ''Account settings'', textItem ''Roles''])]
     = Inr [(''textBlocks'', JArr [textItem ''Account settings'', textItem ''Roles''])]
   \<and> filterSeen contentHashKey {} [textItem ''Roles'', textItem ''Account settings'']
     = Inr [textItem ''Roles'', textItem ''Account settings'']"
proof -
  let ?ct = "[(''textBlocks'', JArr [textItem ''Account settings'', textItem ''Roles'',
                                    textItem ''Account settings'', textItem ''Next''])]"
  let ?ct' = "[(''textBlocks'', JArr [textItem ''Account settings'', textItem ''Roles''])]"
  have first: "dedupContent ?ct = Inr ?ct'"
    by code_simp
  with deduplicator_idempotent have again: "dedupContent ?ct' = Inr ?ct'"
    by blast
  have hashes: "mapE generateContentHash [textItem ''Roles'', textItem ''Account settings'']
                  = Inr [''Roles'', ''Account settings'']"
    by code_simp
  have "distinct [''Roles'', ''Account settings''] \<and> (\<forall>h\<in>set [''Roles'', ''Account settings'']. 5 \<le> length h)"
    by simp
  with deduplicator_idempotent hashes
  have order: "filterSeen contentHashKey {} [textItem ''Roles'', textItem ''Account settings'']
     = Inr [textItem ''Roles'', textItem ''Account settings'']"
    by blast
  from first again order show ?thesis
    by blast
qed

section \<open>Fingerprints\<close>








section \<open>Hotspot collapse\<close>

lemma foldE_invariant:
  assumes "foldE f s xs = Inr s'" and "P s"
    and "\<And>s x s'. P s \<Longrightarrow> f s x = Inr s' \<Longrightarrow> P s'"
  shows "P s'"
  using assms(1,2)
proof (induction xs arbitrary: s)
  case Nil
  then show ?case by simp
next
  case (Cons x xs)
  then show ?case
    by (auto simp: bindE_eq_Inr intro: assms(3))
qed








section \<open>Metadata: the first non-empty value wins\<close>

lemma mergeMetadata_foldl:
  "mergeMetadata md src = Inr md' \<longleftrightarrow> (\<exists>keys. objectKeys src = Inr keys \<and> md' = foldl (metadataStep src) md keys)"
  by (auto simp: mergeMetadata_def bindE_eq_Inr metadataStep_def [abs_def])

lemma metadataStep_kept:
  "metadataHolds m k \<Longrightarrow> lookup (metadataStep src m key) k = lookup m k"
  by (auto simp: metadataStep_def lookup_setProp)

lemma metadataStep_holds:
  "metadataHolds m k \<Longrightarrow> metadataHolds (metadataStep src m key) k"
  using metadataStep_kept [of m k src key] by (simp add: metadataHolds_def)

lemma foldl_metadataStep_kept:
  "metadataHolds m k \<Longrightarrow> lookup (foldl (metadataStep src) m keys) k = lookup m k"
proof (induction keys arbitrary: m)
  case Nil
  then show ?case by simp
next
  case (Cons key keys)
  then show ?case
    by (simp add: metadataStep_kept metadataStep_holds)
qed

lemma metadataStep_changed:
  "lookup (metadataStep src m key) k \<noteq> lookup m k \<Longrightarrow>
   \<not> metadataHolds m k \<and> truthy (getProp src k) \<and> lookup (metadataStep src m key) k = getProp src k"
  by (auto simp: metadataStep_def lookup_setProp split: if_splits)

lemma foldl_metadataStep_changed:
  "lookup (foldl (metadataStep src) m keys) k \<noteq> lookup m k \<Longrightarrow>
   \<not> metadataHolds m k \<and> truthy (getProp src k) \<and> lookup (foldl (metadataStep src) m keys) k = getProp src k"
proof (induction keys arbitrary: m)
  case Nil
  then show ?case by simp
next
  case (Cons key keys)
  let ?m1 = "metadataStep src m key"
  show ?case
  proof (cases "lookup ?m1 k = lookup m k")
    case True
    with Cons.prems have "lookup (foldl (metadataStep src) ?m1 keys) k \<noteq> lookup ?m1 k" by simp
    from Cons.IH [OF this] True show ?thesis
      by (simp add: metadataHolds_def)
  next
    case False
    from metadataStep_changed [OF False]
    have c: "\<not> metadataHolds m k" "truthy (getProp src k)" "lookup ?m1 k = getProp src k"
      by simp_all
    then have "metadataHolds ?m1 k" by (simp add: metadataHolds_def)
    then have "lookup (foldl (metadataStep src) ?m1 keys) k = lookup ?m1 k"
      by (rule foldl_metadataStep_kept)
    with c show ?thesis by simp
  qed
qed

lemma mergeMetadata_kept:
  "mergeMetadata md src = Inr md' \<Longrightarrow> truthy (lookup md k) \<Longrightarrow> lookup md' k = lookup md k"
  by (auto simp: mergeMetadata_foldl metadataHolds_def intro!: foldl_metadataStep_kept)

lemma mergeMetadata_changed:
  "mergeMetadata md src = Inr md' \<Longrightarrow> lookup md' k \<noteq> lookup md k \<Longrightarrow>
   \<not> truthy (lookup md k) \<and> truthy (getProp src k) \<and> lookup md' k = getProp src k"
  using foldl_metadataStep_changed [of src md _ k]
  by (auto simp: mergeMetadata_foldl metadataHolds_def)

lemma mergeContentKey_metadata_kept:
  "mergeContentKey src c key = Inr c' \<Longrightarrow> truthy (lookup (metadata c) k) \<Longrightarrow>
   lookup (metadata c') k = lookup (metadata c) k"
  by (auto simp: mergeContentKey_def bindE_eq_Inr mergeMetadata_kept
      split: if_splits prod.splits jsval.splits)

lemma mergeResponse_metadata_kept:
  assumes "mergeResponse c r = Inr c'" "truthy (lookup (metadata c) k)"
  shows "lookup (metadata c') k = lookup (metadata c) k"
proof -
  let ?P = "\<lambda>s. lookup (metadata s) k = lookup (metadata c) k"
  have step: "?P s'" if "?P s" "mergeContentKey src s key = Inr s'" for s s' src key
    using that assms(2) mergeContentKey_metadata_kept [of src s key s' k] by simp
  have fold: "?P s'" if "foldE (mergeContentKey src) s keys = Inr s'" "?P s" for s s' src keys
    using that by (rule foldE_invariant) (rule step)
  show ?thesis
  proof (cases "isBareMetadata r")
    case True
    with assms show ?thesis
      by (auto simp: mergeResponse_def bindE_eq_Inr mergeMetadata_kept)
  next
    case nb: False
    show ?thesis
    proof (cases "truthy r \<and> truthy (getProp r ''success'') \<and> truthy (getProp r ''data'')")
      case False
      with nb assms show ?thesis by (simp add: mergeResponse_def)
    next
      case True
      let ?data = "getProp r ''data''"
      from nb True assms(1) obtain c1 where
        c1: "(if truthy (getProp ?data ''metadata'')
              then bindE (mergeMetadata (metadata c) (getProp ?data ''metadata''))
                     (\<lambda>md. Inr (c\<lparr>metadata := md\<rparr>))
              else Inr c) = Inr c1"
        and c': "(if truthy (getProp ?data ''content'')
                  then bindE (objectKeys (getProp ?data ''content''))
                         (\<lambda>keys. foldE (mergeContentKey (getProp ?data ''content'')) c1 keys)
                  else Inr c1) = Inr c'"
        by (auto simp: mergeResponse_def bindE_eq_Inr Let_def)
      from c1 assms(2) have p1: "?P c1"
        by (auto simp: bindE_eq_Inr mergeMetadata_kept split: if_splits)
      from c' p1 show ?thesis
        by (auto simp: bindE_eq_Inr split: if_splits dest: fold)
    qed
  qed
qed

lemma mergeResponses_metadata_kept:
  assumes "foldE mergeResponse c rs = Inr c'" "truthy (lookup (metadata c) k)"
  shows "lookup (metadata c') k = lookup (metadata c) k"
  using assms(1)
proof (rule foldE_invariant [where P = "\<lambda>s. lookup (metadata s) k = lookup (metadata c) k"])
  show "lookup (metadata c) k = lookup (metadata c) k" by simp
next
  fix s x s'
  assume "lookup (metadata s) k = lookup (metadata c) k" "mergeResponse s x = Inr s'"
  then show "lookup (metadata s') k = lookup (metadata c) k"
    using assms(2) mergeResponse_metadata_kept [of s x s' k] by simp
qed

lemma foldE_append:
  "foldE f s (xs @ ys) = bindE (foldE f s xs) (\<lambda>s'. foldE f s' ys)"
  by (induction xs arbitrary: s) (simp_all add: bindE_def split: sum.splits)



lemma combineResults_emptyContent:
  assumes "mergeAll now rs = Inr c" "content c = emptyContent"
  shows "\<exists>d. combineResults now rs = Inr d \<and> metadata d = metadata c"
proof -
  have 1: "dedupContent emptyContent = Inr emptyContent"
    by code_simp
  have 2: "collapseHotspots (lookup emptyContent ''hotspots'') = Inr (JArr [])"
    by code_simp
  have 3: "filterCategory textBlockKey ''textBlocks'' (setProp emptyContent ''hotspots'' (JArr []))
             = Inr emptyContent"
    by code_simp
  have 4: "filterCategory listKey ''lists'' emptyContent = Inr emptyContent"
    by code_simp
  have 5: "filterCategory knowledgeCheckKey ''knowledgeChecks'' emptyContent = Inr emptyContent"
    by code_simp
  have "calculateStatistics emptyContent = Inr (projr (calculateStatistics emptyContent))"
    by code_simp
  then obtain stats where 7: "calculateStatistics emptyContent = Inr stats"
    by (rule that)
  show ?thesis
    by (simp add: combineResults_def assms 1 2 3 4 5 7)
qed

lemma merge_course_first:
  "mergeAll now [envelope [(''course'', JStr X)] [], envelope [(''course'', JStr Y)] []]
   = Inr \<lparr>metadata = [(''scrapedAt'', JStr now), (''url'', JStr []),
                      (''course'', JStr (if X = [] then Y else X)),
                      (''lesson'', JStr []), (''path'', JStr [])],
          content = emptyContent\<rparr>"
  by (simp add: mergeAll_def mergeResponse_def isBareMetadata_def envelope_def lookup_def
      mergeMetadata_def metadataHolds_def objectPrototypeKeys_def setProp_def initialCombined_def
      emptyContent_def Let_def)


text \<open>
  Claim C2. Merging metadata is first-non-empty-wins over the ordered list of responses.
  A merge changes a field only when the accumulator's value is empty (falsy) and the
  source's value is not, and the new value is the source's. A field that is non-empty
  after a prefix of the list has the same value after the whole list, and the document
  carries the merged metadata. Source A with course X (not empty) before source B with
  course Y gives X; when A's course is the empty string the result is Y.
\<close>

theorem metadata_first_non_empty_wins:
  "(\<forall>md src md' k. mergeMetadata md src = Inr md' \<and> lookup md' k \<noteq> lookup md k
      \<longrightarrow> \<not> truthy (lookup md k) \<and> truthy (getProp src k) \<and> lookup md' k = getProp src k)
   \<and> (\<forall>now earlier later c1 c2 k.
         mergeAll now earlier = Inr c1 \<and> mergeAll now (earlier @ later) = Inr c2
         \<and> truthy (lookup (metadata c1) k)
      \<longrightarrow> lookup (metadata c2) k = lookup (metadata c1) k)
   \<and> (\<forall>now responses d. combineResults now responses = Inr d
      \<longrightarrow> (\<exists>c. mergeAll now responses = Inr c \<and> metadata d = metadata c))
   \<and> (\<forall>now X Y. X \<noteq> [] \<longrightarrow>
         (\<exists>d. combineResults now [envelope [(''course'', JStr X)] [],
                                   envelope [(''course'', JStr Y)] []] = Inr d
              \<and> lookup (metadata d) ''course'' = JStr X))
   \<and> (\<forall>now Y. \<exists>d. combineResults now [envelope [(''course'', JStr [])] [],
                                        envelope [(''course'', JStr Y)] []] = Inr d
              \<and> lookup (metadata d) ''course'' = JStr Y)"
proof (intro conjI)
  show "\<forall>md src md' k. mergeMetadata md src = Inr md' \<and> lookup md' k \<noteq> lookup md k
      \<longrightarrow> \<not> truthy (lookup md k) \<and> truthy (getProp src k) \<and> lookup md' k = getProp src k"
    by (intro allI impI, elim conjE, rule mergeMetadata_changed)
next
  show "\<forall>now earlier later c1 c2 k.
         mergeAll now earlier = Inr c1 \<and> mergeAll now (earlier @ later) = Inr c2
         \<and> truthy (lookup (metadata c1) k)
      \<longrightarrow> lookup (metadata c2) k = lookup (metadata c1) k"
  proof (intro allI impI)
    fix now earlier later c1 c2 k
    assume a: "mergeAll now earlier = Inr c1 \<and> mergeAll now (earlier @ later) = Inr c2
         \<and> truthy (lookup (metadata c1) k)"
    then have "foldE mergeResponse c1 later = Inr c2"
      by (auto simp: mergeAll_def foldE_append)
    with a show "lookup (metadata c2) k = lookup (metadata c1) k"
      using mergeResponses_metadata_kept [of c1 later c2 k] by simp
  qed
next
  show "\<forall>now responses d. combineResults now responses = Inr d
      \<longrightarrow> (\<exists>c. mergeAll now responses = Inr c \<and> metadata d = metadata c)"
  proof (intro allI impI)
    fix now responses d
    assume "combineResults now responses = Inr d"
    then show "\<exists>c. mergeAll now responses = Inr c \<and> metadata d = metadata c"
      by (elim combineResults_Inr) simp
  qed
next
  show "\<forall>now X Y. X \<noteq> [] \<longrightarrow>
         (\<exists>d. combineResults now [envelope [(''course'', JStr X)] [],
                                   envelope [(''course'', JStr Y)] []] = Inr d
              \<and> lookup (metadata d) ''course'' = JStr X)"
  proof (intro allI impI)
    fix now X Y
    assume X: "X \<noteq> ([] :: string)"
    let ?rs = "[envelope [(''course'', JStr X)] [], envelope [(''course'', JStr Y)] []]"
    from combineResults_emptyContent [OF merge_course_first [of now X Y]]
    obtain d where "combineResults now ?rs = Inr d"
      and "metadata d = [(''scrapedAt'', JStr now), (''url'', JStr []),
                        (''course'', JStr (if X = [] then Y else X)),
                        (''lesson'', JStr []), (''path'', JStr [])]"
      by auto
    with X show "\<exists>d. combineResults now ?rs = Inr d \<and> lookup (metadata d) ''course'' = JStr X"
      by (auto simp: lookup_def)
  qed
next
  show "\<forall>now Y. \<exists>d. combineResults now [envelope [(''course'', JStr [])] [],
                                        envelope [(''course'', JStr Y)] []] = Inr d
              \<and> lookup (metadata d) ''course'' = JStr Y"
  proof (intro allI)
    fix now Y
    let ?rs = "[envelope [(''course'', JStr [])] [], envelope [(''course'', JStr Y)] []]"
    from combineResults_emptyContent [OF merge_course_first [of now "[]" Y]]
    obtain d where "combineResults now ?rs = Inr d"
      and "metadata d = [(''scrapedAt'', JStr now), (''url'', JStr []),
                        (''course'', JStr Y), (''lesson'', JStr []), (''path'', JStr [])]"
      by auto
    then show "\<exists>d. combineResults now ?rs = Inr d \<and> lookup (metadata d) ''course'' = JStr Y"
      by (auto simp: lookup_def)
  qed
qed

theorem metadata_first_non_empty_wins_example:
  "(\<exists>d. combineResults scrapeTime [envelope [(''course'', JStr ''Account Settings'')] [],
                                     envelope [(''course'', JStr ''Builder Core'')] []] = Inr d
        \<and> lookup (metadata d) ''course'' = JStr ''Account Settings'')
   \<and> (\<exists>d. combineResults scrapeTime [envelope [(''course'', JStr [])] [],
                                       envelope [(''course'', JStr ''Builder Core'')] []] = Inr d
        \<and> lookup (metadata d) ''course'' = JStr ''Builder Core'')
   \<and> (\<exists>c1 c2. mergeAll scrapeTime [JObj [(''url'', JStr ''https://training.example/lesson'')]] = Inr c1
        \<and> mergeAll scrapeTime
             ([JObj [(''url'', JStr ''https://training.example/lesson'')]]
              @ [envelope [(''url'', JStr ''about:blank''), (''lesson'', JStr ''Account'')] []]) = Inr c2
        \<and> lookup (metadata c2) ''url'' = lookup (metadata c1) ''url'')"
proof -
  have ne: "''Account Settings'' \<noteq> ([] :: string)"
    by simp
  let ?e = "[JObj [(''url'', JStr ''https://training.example/lesson'')]]"
  let ?l = "[envelope [(''url'', JStr ''about:blank''), (''lesson'', JStr ''Account'')] []]"
  let ?c1 = "projr (mergeAll scrapeTime ?e)"
  let ?c2 = "projr (mergeAll scrapeTime (?e @ ?l))"
  have c1: "mergeAll scrapeTime ?e = Inr ?c1"
    by code_simp
  have c2: "mergeAll scrapeTime (?e @ ?l) = Inr ?c2"
    by code_simp
  have t: "truthy (lookup (metadata ?c1) ''url'')"
    by code_simp
  from metadata_first_non_empty_wins c1 c2 t
  have "lookup (metadata ?c2) ''url'' = lookup (metadata ?c1) ''url''"
    by blast
  with c1 c2 have third: "\<exists>c1 c2. mergeAll scrapeTime ?e = Inr c1 \<and> mergeAll scrapeTime (?e @ ?l) = Inr c2
        \<and> lookup (metadata c2) ''url'' = lookup (metadata c1) ''url''"
    by blast
  from metadata_first_non_empty_wins ne third show ?thesis
    by blast
qed

section \<open>Content: append or assign\<close>

lemma mergeContentKey_content:
  assumes "mergeContentKey src c key = Inr c'" "k \<noteq> ''metadata''"
  shows "lookup (content c') k
         = (if key = k then mergedValue (lookup (content c) k) (getProp src k)
            else lookup (content c) k)"
proof (cases "key = ''metadata''")
  case True
  with assms show ?thesis
    by (auto simp: mergeContentKey_def bindE_eq_Inr)
next
  case False
  with assms(1) have np: "key \<noteq> ''__proto__''"
    by (auto simp: mergeContentKey_def)
  show ?thesis
  proof (cases "isArray (lookup (content c) key) \<and> isArray (getProp src key)")
    case True
    then obtain xs ys where "lookup (content c) key = JArr xs" "getProp src key = JArr ys"
      by (cases "lookup (content c) key"; cases "getProp src key") auto
    with assms False np show ?thesis
      by (auto simp: mergeContentKey_def mergedValue_def lookup_setProp)
  next
    case na: False
    then have "mergedValue (lookup (content c) key) (getProp src key)
                = (if truthy (getProp src key) then getProp src key else lookup (content c) key)"
      by (cases "lookup (content c) key"; cases "getProp src key") (auto simp: mergedValue_def)
    moreover from na assms(1) False np
    have "c' = (if truthy (getProp src key)
                then c\<lparr>content := setProp (content c) key (getProp src key)\<rparr> else c)"
      by (cases "lookup (content c) key"; cases "getProp src key")
         (auto simp: mergeContentKey_def split: if_splits)
    ultimately show ?thesis
      by (auto simp: lookup_setProp)
  qed
qed

lemma foldE_mergeContentKey_content:
  assumes "foldE (mergeContentKey src) c keys = Inr c'" "distinct keys" "k \<noteq> ''metadata''"
  shows "lookup (content c') k
         = (if k \<in> set keys then mergedValue (lookup (content c) k) (getProp src k)
            else lookup (content c) k)"
  using assms(1,2)
proof (induction keys arbitrary: c)
  case Nil
  then show ?case by simp
next
  case (Cons key keys)
  from Cons.prems(1) obtain c1 where
    s: "mergeContentKey src c key = Inr c1" and f: "foldE (mergeContentKey src) c1 keys = Inr c'"
    by (auto simp: bindE_eq_Inr)
  from Cons.prems(2) have d: "distinct keys" "key \<notin> set keys" by simp_all
  from Cons.IH [OF f d(1)] mergeContentKey_content [OF s assms(3)] d(2)
  show ?case by auto
qed

lemma mergedValue_absent:
  assumes "objectKeys src = Inr keys" "k \<notin> set keys"
  shows "mergedValue held (getProp src k) = held"
proof -
  have "\<not> truthy (getProp src k) \<and> \<not> isArray (getProp src k)"
  proof (cases src)
    case (JObj ps)
    with assms(1) have "keys = remdups (map fst ps)"
      by simp
    with assms(2) have "k \<notin> set (map fst ps)"
      by simp
    then have "map_of ps k = None"
      by (simp add: map_of_eq_None_iff)
    with JObj show ?thesis by (simp add: lookup_def)
  next
    case (JArr xs)
    with assms show ?thesis by (auto split: if_splits)
  next
    case (JStr s)
    with assms show ?thesis by (auto split: if_splits)
  qed simp_all
  then show ?thesis
    by (cases held; cases "getProp src k") (auto simp: mergedValue_def)
qed

lemma objectKeys_distinct: "objectKeys v = Inr keys \<Longrightarrow> distinct keys"
  by (cases v) (auto split: if_splits)

lemma mergeResponse_cases:
  assumes "mergeResponse c r = Inr c'"
  obtains (bare) md where "isBareMetadata r" "mergeMetadata (metadata c) r = Inr md"
      "c' = c\<lparr>metadata := md\<rparr>"
  | (envelope) c1 where "\<not> isBareMetadata r" "truthy r" "truthy (getProp r ''success'')"
      "truthy (getProp r ''data'')"
      "(if truthy (getProp (getProp r ''data'') ''metadata'')
        then bindE (mergeMetadata (metadata c) (getProp (getProp r ''data'') ''metadata''))
               (\<lambda>md. Inr (c\<lparr>metadata := md\<rparr>))
        else Inr c) = Inr c1"
      "(if truthy (getProp (getProp r ''data'') ''content'')
        then bindE (objectKeys (getProp (getProp r ''data'') ''content''))
               (\<lambda>keys. foldE (mergeContentKey (getProp (getProp r ''data'') ''content'')) c1 keys)
        else Inr c1) = Inr c'"
  | (skipped) "\<not> isBareMetadata r"
      "\<not> (truthy r \<and> truthy (getProp r ''success'') \<and> truthy (getProp r ''data''))" "c' = c"
proof (cases "isBareMetadata r")
  case True
  with assms bare show ?thesis
    by (auto simp: mergeResponse_def bindE_eq_Inr)
next
  case nb: False
  show ?thesis
  proof (cases "truthy r \<and> truthy (getProp r ''success'') \<and> truthy (getProp r ''data'')")
    case False
    with nb assms skipped show ?thesis by (simp add: mergeResponse_def)
  next
    case True
    with nb assms envelope show ?thesis
      by (auto simp: mergeResponse_def bindE_eq_Inr Let_def)
  qed
qed

lemma mergeResponse_content:
  assumes "mergeResponse c r = Inr c'" "truthy (getProp r ''success'')"
    "truthy (getProp (getProp r ''data'') ''content'')" "k \<noteq> ''metadata''"
  shows "lookup (content c') k
         = mergedValue (lookup (content c) k) (getProp (getProp (getProp r ''data'') ''content'') k)"
  using assms(1)
proof (cases rule: mergeResponse_cases)
  case (bare md)
  with assms(2) show ?thesis by (simp add: isBareMetadata_def)
next
  case skipped
  from assms(2) have "truthy r" by (cases r) simp_all
  moreover from assms(3) have "truthy (getProp r ''data'')" by (cases "getProp r ''data''") simp_all
  ultimately show ?thesis using skipped assms(2) by simp
next
  case (envelope c1)
  let ?src = "getProp (getProp r ''data'') ''content''"
  from envelope(5) have c1: "content c1 = content c"
    by (auto simp: bindE_eq_Inr split: if_splits)
  from envelope(6) assms(3) obtain keys where
    k: "objectKeys ?src = Inr keys" and f: "foldE (mergeContentKey ?src) c1 keys = Inr c'"
    by (auto simp: bindE_eq_Inr)
  from foldE_mergeContentKey_content [OF f objectKeys_distinct [OF k] assms(4)]
  show ?thesis
    using mergedValue_absent [OF k, of k "lookup (content c) k"] by (simp add: c1)
qed


text \<open>
  The names of \<open>combined.content\<close> stay distinct through the merge, so the Deduplicator's
  loop over \<open>Object.keys(combined.content)\<close> visits each entry once.
\<close>

lemma mergeContentKey_distinct:
  assumes "distinct (map fst (content c))" "mergeContentKey src c key = Inr c'"
  shows "distinct (map fst (content c'))"
proof (cases "key = ''metadata''")
  case True
  with assms show ?thesis
    by (auto simp: mergeContentKey_def bindE_eq_Inr)
next
  case False
  with assms(2) have "content c' = content c \<or> (\<exists>v. content c' = setProp (content c) key v)"
    by (cases "lookup (content c) key"; cases "getProp src key")
       (auto simp: mergeContentKey_def split: if_splits)
  with assms(1) show ?thesis
    by (auto simp: setProp_def distinct_update)
qed

lemma mergeResponse_distinct:
  assumes "distinct (map fst (content c))" "mergeResponse c r = Inr c'"
  shows "distinct (map fst (content c'))"
  using assms(2)
proof (cases rule: mergeResponse_cases)
  case (bare md)
  with assms(1) show ?thesis by simp
next
  case skipped
  with assms(1) show ?thesis by simp
next
  case (envelope c1)
  from envelope(5) assms(1) have "distinct (map fst (content c1))"
    by (auto simp: bindE_eq_Inr split: if_splits)
  moreover have "distinct (map fst (content s'))"
    if "foldE (mergeContentKey src) s keys = Inr s'" "distinct (map fst (content s))" for s s' src keys
    using that by (rule foldE_invariant) (rule mergeContentKey_distinct)
  ultimately show ?thesis
    using envelope(6) by (auto simp: bindE_eq_Inr split: if_splits)
qed

lemma mergeAll_distinct:
  assumes "mergeAll now responses = Inr c"
  shows "distinct (map fst (content c))"
  using assms unfolding mergeAll_def
proof (rule foldE_invariant)
  show "distinct (map fst (content (initialCombined now)))"
    by (simp add: initialCombined_def)
qed (rule mergeResponse_distinct)

text \<open>
  Claim C6 says that a source value is assigned only when the accumulator has no value yet,
  so that a non-empty \<open>rawText\<close> is not replaced by a later source. The program assigns
  whenever the two values are not both arrays and the source's value is truthy: the second
  of two responses replaces the \<open>rawText\<close> of the first.
\<close>

theorem rawText_replaced_by_later_source:
  "mergeAll scrapeTime [firstLesson] = Inr (projr (mergeAll scrapeTime [firstLesson]))
   \<and> lookup (content (projr (mergeAll scrapeTime [firstLesson]))) ''rawText''
       = JStr ''first lesson text''
   \<and> mergeResponse (projr (mergeAll scrapeTime [firstLesson])) secondLesson
       = Inr (projr (mergeAll scrapeTime [firstLesson, secondLesson]))
   \<and> lookup (content (projr (mergeAll scrapeTime [firstLesson, secondLesson]))) ''rawText''
       = JStr ''second lesson text''
   \<and> combineResults scrapeTime [firstLesson, secondLesson]
       = Inr (projr (combineResults scrapeTime [firstLesson, secondLesson]))
   \<and> lookup (content (projr (combineResults scrapeTime [firstLesson, secondLesson]))) ''rawText''
       = JStr ''second lesson text''"
proof (intro conjI)
  show "mergeAll scrapeTime [firstLesson] = Inr (projr (mergeAll scrapeTime [firstLesson]))"
    by code_simp
  show "lookup (content (projr (mergeAll scrapeTime [firstLesson]))) ''rawText''
       = JStr ''first lesson text''"
    by code_simp
  show "mergeResponse (projr (mergeAll scrapeTime [firstLesson])) secondLesson
       = Inr (projr (mergeAll scrapeTime [firstLesson, secondLesson]))"
    by code_simp
  show "lookup (content (projr (mergeAll scrapeTime [firstLesson, secondLesson]))) ''rawText''
       = JStr ''second lesson text''"
    by code_simp
  show "combineResults scrapeTime [firstLesson, secondLesson]
       = Inr (projr (combineResults scrapeTime [firstLesson, secondLesson]))"
    by code_simp
  show "lookup (content (projr (combineResults scrapeTime [firstLesson, secondLesson]))) ''rawText''
       = JStr ''second lesson text''"
    by code_simp
qed

text \<open>
  Claim C6 as amended. For a successful response with a content object and a category key
  other than \<open>metadata\<close>: when the accumulator and the source both hold a sequence, the
  source's items are appended after the held ones in arrival order; otherwise a non-empty
  (truthy) source value is assigned, whatever the accumulator held, so that for \<open>rawText\<close>
  the last non-empty value wins; and an empty or absent source value leaves the
  accumulator as it is.
\<close>

theorem content_merge_append_or_assign:
  "\<forall>c r c' src k. mergeResponse c r = Inr c' \<and> truthy (getProp r ''success'')
        \<and> getProp (getProp r ''data'') ''content'' = src \<and> truthy src \<and> k \<noteq> ''metadata''
     \<longrightarrow> (\<forall>held items. lookup (content c) k = JArr held \<and> getProp src k = JArr items
            \<longrightarrow> lookup (content c') k = JArr (held @ items))
       \<and> (\<not> (isArray (lookup (content c) k) \<and> isArray (getProp src k)) \<and> truthy (getProp src k)
            \<longrightarrow> lookup (content c') k = getProp src k)
       \<and> (\<not> (isArray (lookup (content c) k) \<and> isArray (getProp src k)) \<and> \<not> truthy (getProp src k)
            \<longrightarrow> lookup (content c') k = lookup (content c) k)"
proof (intro allI impI)
  fix c r c' src k
  assume a: "mergeResponse c r = Inr c' \<and> truthy (getProp r ''success'')
        \<and> getProp (getProp r ''data'') ''content'' = src \<and> truthy src \<and> k \<noteq> ''metadata''"
  then have m: "lookup (content c') k = mergedValue (lookup (content c) k) (getProp src k)"
    using mergeResponse_content [of c r c' k] by auto
  have 1: "lookup (content c') k = JArr (held @ items)"
    if "lookup (content c) k = JArr held \<and> getProp src k = JArr items" for held items
    using that by (simp add: m mergedValue_def)
  have 2: "lookup (content c') k = getProp src k"
    if "\<not> (isArray (lookup (content c) k) \<and> isArray (getProp src k)) \<and> truthy (getProp src k)"
    using that by (cases "lookup (content c) k"; cases "getProp src k") (auto simp: m mergedValue_def)
  have 3: "lookup (content c') k = lookup (content c) k"
    if "\<not> (isArray (lookup (content c) k) \<and> isArray (getProp src k)) \<and> \<not> truthy (getProp src k)"
    using that by (cases "lookup (content c) k"; cases "getProp src k") (auto simp: m mergedValue_def)
  from 1 2 3 show "(\<forall>held items. lookup (content c) k = JArr held \<and> getProp src k = JArr items
            \<longrightarrow> lookup (content c') k = JArr (held @ items))
       \<and> (\<not> (isArray (lookup (content c) k) \<and> isArray (getProp src k)) \<and> truthy (getProp src k)
            \<longrightarrow> lookup (content c') k = getProp src k)
       \<and> (\<not> (isArray (lookup (content c) k) \<and> isArray (getProp src k)) \<and> \<not> truthy (getProp src k)
            \<longrightarrow> lookup (content c') k = lookup (content c) k)"
    by blast
qed

theorem content_merge_example:
  "lookup (content (projr (mergeAll scrapeTime [firstLesson, secondLesson]))) ''textBlocks''
     = JArr [textItem ''Account settings'', textItem ''Transfer ownership'']
   \<and> lookup (content (projr (mergeAll scrapeTime [firstLesson, secondLesson]))) ''rawText''
     = JStr ''second lesson text''
   \<and> lookup (content (projr (mergeAll scrapeTime [firstLesson, secondLesson]))) ''videos'' = JArr []"
proof -
  let ?c = "projr (mergeAll scrapeTime [firstLesson])"
  let ?c' = "projr (mergeAll scrapeTime [firstLesson, secondLesson])"
  let ?src = "getProp (getProp secondLesson ''data'') ''content''"
  have step: "mergeResponse ?c secondLesson = Inr ?c'"
    by code_simp
  have ok: "truthy (getProp secondLesson ''success'') \<and> truthy ?src"
    by code_simp
  have tb: "lookup (content ?c) ''textBlocks'' = JArr [textItem ''Account settings'']
            \<and> getProp ?src ''textBlocks'' = JArr [textItem ''Transfer ownership'']"
    by code_simp
  have raw: "\<not> (isArray (lookup (content ?c) ''rawText'') \<and> isArray (getProp ?src ''rawText''))
             \<and> truthy (getProp ?src ''rawText'')"
    by code_simp
  have rawv: "getProp ?src ''rawText'' = JStr ''second lesson text''"
    by code_simp
  have vid: "\<not> (isArray (lookup (content ?c) ''videos'') \<and> isArray (getProp ?src ''videos''))
             \<and> \<not> truthy (getProp ?src ''videos'')"
    by code_simp
  have vidv: "lookup (content ?c) ''videos'' = JArr []"
    by code_simp
  note t = content_merge_append_or_assign [rule_format, of ?c secondLesson ?c' ?src]
  have 1: "lookup (content ?c') ''textBlocks''
            = JArr ([textItem ''Account settings''] @ [textItem ''Transfer ownership''])"
    using t [of "''textBlocks''"] step ok tb by simp
  have 2: "lookup (content ?c') ''rawText'' = getProp ?src ''rawText''"
    using t [of "''rawText''"] step ok raw by simp
  have 3: "lookup (content ?c') ''videos'' = lookup (content ?c) ''videos''"
    using t [of "''videos''"] step ok vid by simp
  from 1 2 3 rawv vidv show ?thesis
    by simp
qed

section \<open>The re-split of the sentence-start rule\<close>










section \<open>Totality of the pipeline\<close>





















lemma filterSeen_subset:
  assumes "list_all P items" "filterSeen key seen items = Inr kept"
  shows "list_all P kept"
  using assms filterSeen_kept [OF assms(2)] by (auto simp: list_all_iff)

















end
